theory Spec2Isabelle
  imports Main
begin

section \<open>Terraform HTTP backend: the storage and locking handlers\<close>

text \<open>
  The development embeds \<^verbatim>\<open>terraform-http-backend.go\<close>: the in-memory roster
  (\<^verbatim>\<open>State\<close>, \<^verbatim>\<open>States\<close>, \<^verbatim>\<open>processEntries\<close>), the two
  checks of the store (\<^verbatim>\<open>isLocked\<close>, \<^verbatim>\<open>exists\<close>) and the handlers
  (\<^verbatim>\<open>allStates\<close>, \<^verbatim>\<open>handleGet\<close>, \<^verbatim>\<open>handlePost\<close>, \<^verbatim>\<open>handleDelete\<close>,
  \<^verbatim>\<open>handleLock\<close>, \<^verbatim>\<open>handleUnlock\<close>, \<^verbatim>\<open>handleState\<close>).

  A Go \<^verbatim>\<open>string\<close> and a \<^verbatim>\<open>[]byte\<close> are sequences of bytes. A HOL \<^typ>\<open>char\<close> is
  an eight-bit value, so both are modelled by \<^typ>\<open>string\<close>.
\<close>

subsection \<open>Constants and sentinel errors\<close>

definition stateFileExt :: string where
  "stateFileExt = ''.tfstate''"

definition lockFileExt :: string where
  "lockFileExt = ''.lock''"

abbreviation StatusOK :: nat where "StatusOK \<equiv> 200"
abbreviation StatusCreated :: nat where "StatusCreated \<equiv> 201"
abbreviation StatusBadRequest :: nat where "StatusBadRequest \<equiv> 400"
abbreviation StatusNotFound :: nat where "StatusNotFound \<equiv> 404"
abbreviation StatusMethodNotAllowed :: nat where "StatusMethodNotAllowed \<equiv> 405"
abbreviation StatusConflict :: nat where "StatusConflict \<equiv> 409"
abbreviation StatusLocked :: nat where "StatusLocked \<equiv> 423"
abbreviation StatusInternalServerError :: nat where "StatusInternalServerError \<equiv> 500"

text \<open>
  The package's sentinel errors; \<open>ErrEntry name err\<close> is the wrapping
  \<^verbatim>\<open>fmt.Errorf("failed to process entry %s: %w", name, err)\<close> of \<^verbatim>\<open>processEntries\<close>.
\<close>

datatype error =
    ErrNotDirectory
  | ErrAlreadyLocked
  | ErrAlreadyUnlocked
  | ErrAlreadyExists
  | ErrNotExists
  | ErrEntry string error

subsection \<open>The roster: State and States\<close>

record State =
  Name :: string
  Locked :: bool

definition State_IsLocked :: "State \<Rightarrow> bool" where
  "State_IsLocked s = Locked s"

definition State_Lock :: "State \<Rightarrow> error + State" where
  "State_Lock s = (if Locked s then Inl ErrAlreadyLocked else Inr (s\<lparr>Locked := True\<rparr>))"

definition State_Unlock :: "State \<Rightarrow> error + State" where
  "State_Unlock s = (if \<not> Locked s then Inl ErrAlreadyUnlocked else Inr (s\<lparr>Locked := False\<rparr>))"

type_synonym States = "State list"

text \<open>
  \<^verbatim>\<open>States.State\<close> returns a pointer to the first element with the given name; the
  pointer is modelled by the element's index, \<open>None\<close> standing for \<^verbatim>\<open>(nil, false)\<close>.
\<close>

fun States_State :: "States \<Rightarrow> string \<Rightarrow> nat option" where
  "States_State [] name = None"
| "States_State (state # rest) name =
     (if Name state = name then Some 0
      else (case States_State rest name of None \<Rightarrow> None | Some i \<Rightarrow> Some (Suc i)))"

definition States_Add :: "string \<Rightarrow> States \<Rightarrow> error + States" where
  "States_Add name s =
     (case States_State s name of
        Some i \<Rightarrow> Inl ErrAlreadyExists
      | None \<Rightarrow> Inr (s @ [\<lparr>Name = name, Locked = False\<rparr>]))"

definition States_Lock :: "string \<Rightarrow> States \<Rightarrow> error + States" where
  "States_Lock name s =
     (case States_State s name of
        None \<Rightarrow> Inl ErrNotExists
      | Some i \<Rightarrow>
          (case State_Lock (s ! i) of
             Inl err \<Rightarrow> Inl err
           | Inr state \<Rightarrow> Inr (s[i := state])))"

subsection \<open>File names: filepath.Ext and strings.TrimSuffix\<close>

text \<open>
  \<^verbatim>\<open>filepath.Ext\<close> walks the path from its last byte towards its first, stops at a
  path separator and returns the suffix that starts at the first dot it meets.
  \<open>Ext_scan\<close> is that loop on the reversed path, the bytes already passed in \<open>acc\<close>.
\<close>

fun Ext_scan :: "string \<Rightarrow> string \<Rightarrow> string" where
  "Ext_scan [] acc = []"
| "Ext_scan (c # cs) acc =
     (if c = CHR ''/'' then []
      else if c = CHR ''.'' then c # acc
      else Ext_scan cs (c # acc))"

definition Ext :: "string \<Rightarrow> string" where
  "Ext path = Ext_scan (rev path) []"

definition HasSuffix :: "string \<Rightarrow> string \<Rightarrow> bool" where
  "HasSuffix s suffix =
     (length s \<ge> length suffix \<and> drop (length s - length suffix) s = suffix)"

definition TrimSuffix :: "string \<Rightarrow> string \<Rightarrow> string" where
  "TrimSuffix s suffix =
     (if HasSuffix s suffix then take (length s - length suffix) s else s)"

text \<open>
  A directory entry is used through \<^verbatim>\<open>e.Name()\<close> only, so a listing is the list of
  the entries' names. The action is a method value bound to the roster
  (\<^verbatim>\<open>states.Add\<close>, \<^verbatim>\<open>states.Lock\<close>); the roster it mutates is passed through.
\<close>

fun processEntries ::
  "string list \<Rightarrow> string \<Rightarrow> (string \<Rightarrow> 's \<Rightarrow> error + 's) \<Rightarrow> 's \<Rightarrow> error + 's" where
  "processEntries [] ext action s = Inr s"
| "processEntries (e # entries) ext action s =
     (if Ext e = ext then
        (let name = TrimSuffix e (Ext e) in
         case action name s of
           Inl err \<Rightarrow> Inl (ErrEntry name err)
         | Inr s' \<Rightarrow> processEntries entries ext action s')
      else processEntries entries ext action s)"

subsection \<open>The operating system: a directory of files, with failures\<close>

text \<open>
  The handlers reach the storage directory through \<^verbatim>\<open>os.Stat\<close>, \<^verbatim>\<open>os.ReadFile\<close>,
  \<^verbatim>\<open>os.WriteFile\<close>, \<^verbatim>\<open>os.Create\<close> and \<^verbatim>\<open>os.Remove\<close>. The directory is a
  map from keys to nodes, and a handler addresses the file
  \<^verbatim>\<open>filepath.Join(s.path, name+ext)\<close> by the key \<open>name @ ext\<close>. For a name without a
  path separator that key is the name of the entry in the storage directory.
  \<^verbatim>\<open>filepath.Join\<close> also cleans the path, and the router hands over a name with its
  escaped separators decoded, so two names with separators can reach one file
  (\<^verbatim>\<open>a/../b\<close> and \<^verbatim>\<open>b\<close>); the map keeps their keys apart. The statements below
  therefore speak only of the keys that the request's own name addresses, its content
  artifact and its lock marker, and claim nothing about the keys of other names.
  A node is a regular file with its content, or a directory (\<open>Dir True\<close> when it is
  empty).

  Any system call may fail for a reason the directory's content does not explain
  (permissions, a failing disk, a full one). \<open>fault fs call p\<close> is that failure, if any, of
  \<open>call\<close> on entry \<open>p\<close>; \<open>written fs p\<close> is the number of bytes that reach the file
  before a failing write.
\<close>

datatype errno = ENOENT | EACCES | EIO | EISDIR | ENOTDIR | ENOTEMPTY | ENOSPC | EROFS

datatype node = File string | Dir bool

datatype syscall =
  SysStat | SysOpen | SysRead | SysCreat | SysWrite | SysClose | SysUnlink | SysRmdir

record fs =
  nodes :: "string \<Rightarrow> node option"
  fault :: "syscall \<Rightarrow> string \<Rightarrow> errno option"
  written :: "string \<Rightarrow> nat"

text \<open>\<^verbatim>\<open>os.Stat\<close>: the result is the \<^verbatim>\<open>IsDir()\<close> of the file info.\<close>

definition os_Stat :: "fs \<Rightarrow> string \<Rightarrow> errno + bool" where
  "os_Stat s p =
     (case fault s SysStat p of
        Some e \<Rightarrow> Inl e
      | None \<Rightarrow>
          (case nodes s p of
             None \<Rightarrow> Inl ENOENT
           | Some (File b) \<Rightarrow> Inr False
           | Some (Dir em) \<Rightarrow> Inr True))"

text \<open>\<^verbatim>\<open>os.ReadFile\<close>: open for reading, then read to the end. A directory opens and
  fails at the read.\<close>

definition os_ReadFile :: "fs \<Rightarrow> string \<Rightarrow> errno + string" where
  "os_ReadFile s p =
     (case fault s SysOpen p of
        Some e \<Rightarrow> Inl e
      | None \<Rightarrow>
          (case nodes s p of
             None \<Rightarrow> Inl ENOENT
           | Some (Dir em) \<Rightarrow> Inl EISDIR
           | Some (File b) \<Rightarrow>
               (case fault s SysRead p of Some e \<Rightarrow> Inl e | None \<Rightarrow> Inr b)))"

text \<open>\<^verbatim>\<open>os.WriteFile\<close>: open with \<^verbatim>\<open>O_WRONLY|O_CREATE|O_TRUNC\<close>, write, close; the
  error of the write wins over the error of the close.\<close>

definition os_WriteFile :: "fs \<Rightarrow> string \<Rightarrow> string \<Rightarrow> errno option \<times> fs" where
  "os_WriteFile s p data =
     (case fault s SysCreat p of
        Some e \<Rightarrow> (Some e, s)
      | None \<Rightarrow>
          (case nodes s p of
             Some (Dir em) \<Rightarrow> (Some EISDIR, s)
           | _ \<Rightarrow>
               (case fault s SysWrite p of
                  Some e \<Rightarrow> (Some e, s\<lparr>nodes := (nodes s)(p \<mapsto> File (take (written s p) data))\<rparr>)
                | None \<Rightarrow> (fault s SysClose p, s\<lparr>nodes := (nodes s)(p \<mapsto> File data)\<rparr>))))"

text \<open>\<^verbatim>\<open>os.Create\<close>: open with \<^verbatim>\<open>O_RDWR|O_CREATE|O_TRUNC\<close>. The handler drops the
  file handle, so only the error is returned.\<close>

definition os_Create :: "fs \<Rightarrow> string \<Rightarrow> errno option \<times> fs" where
  "os_Create s p =
     (case fault s SysCreat p of
        Some e \<Rightarrow> (Some e, s)
      | None \<Rightarrow>
          (case nodes s p of
             Some (Dir em) \<Rightarrow> (Some EISDIR, s)
           | _ \<Rightarrow> (None, s\<lparr>nodes := (nodes s)(p \<mapsto> File [])\<rparr>)))"

text \<open>\<^verbatim>\<open>os.Remove\<close>: \<^verbatim>\<open>unlink\<close>, and \<^verbatim>\<open>rmdir\<close> when that fails; when both fail
  the error of \<^verbatim>\<open>rmdir\<close> is returned unless it is \<^verbatim>\<open>ENOTDIR\<close>.\<close>

definition sys_unlink :: "fs \<Rightarrow> string \<Rightarrow> errno option \<times> fs" where
  "sys_unlink s p =
     (case fault s SysUnlink p of
        Some e \<Rightarrow> (Some e, s)
      | None \<Rightarrow>
          (case nodes s p of
             None \<Rightarrow> (Some ENOENT, s)
           | Some (Dir em) \<Rightarrow> (Some EISDIR, s)
           | Some (File b) \<Rightarrow> (None, s\<lparr>nodes := (nodes s)(p := None)\<rparr>)))"

definition sys_rmdir :: "fs \<Rightarrow> string \<Rightarrow> errno option \<times> fs" where
  "sys_rmdir s p =
     (case fault s SysRmdir p of
        Some e \<Rightarrow> (Some e, s)
      | None \<Rightarrow>
          (case nodes s p of
             None \<Rightarrow> (Some ENOENT, s)
           | Some (File b) \<Rightarrow> (Some ENOTDIR, s)
           | Some (Dir em) \<Rightarrow>
               (if em then (None, s\<lparr>nodes := (nodes s)(p := None)\<rparr>) else (Some ENOTEMPTY, s))))"

definition os_Remove :: "fs \<Rightarrow> string \<Rightarrow> errno option \<times> fs" where
  "os_Remove s p =
     (case sys_unlink s p of
        (None, s') \<Rightarrow> (None, s')
      | (Some e, s') \<Rightarrow>
          (case sys_rmdir s' p of
             (None, s'') \<Rightarrow> (None, s'')
           | (Some e1, s'') \<Rightarrow> (Some (if e1 \<noteq> ENOTDIR then e1 else e), s'')))"

text \<open>\<^verbatim>\<open>errors.Is(err, os.ErrNotExist)\<close> on an error of a system call.\<close>

definition is_ErrNotExist :: "errno \<Rightarrow> bool" where
  "is_ErrNotExist e = (e = ENOENT)"

subsection \<open>The response writer\<close>

text \<open>
  The response writer is the one of the repository's tests, \<^verbatim>\<open>httptest.ResponseRecorder\<close>,
  which is also how the server's writer treats the status: the first \<^verbatim>\<open>WriteHeader\<close>
  fixes the code, later ones are ignored, a \<^verbatim>\<open>Write\<close> before any \<^verbatim>\<open>WriteHeader\<close>
  fixes 200, and a response that never wrote anything has code 200. Its \<^verbatim>\<open>Write\<close>
  never fails, so the handlers' branches for a failing response write do not appear.
  Headers are not modelled.
\<close>

record ResponseWriter =
  wroteHeader :: bool
  Code :: nat
  Body :: string

definition NewRecorder :: ResponseWriter where
  "NewRecorder = \<lparr>wroteHeader = False, Code = StatusOK, Body = []\<rparr>"

definition WriteHeader :: "ResponseWriter \<Rightarrow> nat \<Rightarrow> ResponseWriter" where
  "WriteHeader w code = (if wroteHeader w then w else w\<lparr>wroteHeader := True, Code := code\<rparr>)"

definition Write :: "ResponseWriter \<Rightarrow> string \<Rightarrow> ResponseWriter" where
  "Write w buf =
     (let w' = (if wroteHeader w then w else WriteHeader w StatusOK)
      in w'\<lparr>Body := Body w' @ buf\<rparr>)"

text \<open>\<^verbatim>\<open>http.Error\<close>: \<^verbatim>\<open>w.WriteHeader(code)\<close>, then \<^verbatim>\<open>fmt.Fprintln(w, error)\<close>.\<close>

definition http_Error :: "ResponseWriter \<Rightarrow> string \<Rightarrow> nat \<Rightarrow> ResponseWriter" where
  "http_Error w msg code = Write (WriteHeader w code) (msg @ [CHR 0x0A])"

subsection \<open>The store's checks\<close>

definition isLocked :: "fs \<Rightarrow> string \<Rightarrow> bool" where
  "isLocked s name =
     (case os_Stat s (name @ lockFileExt) of
        Inl err \<Rightarrow> False
      | Inr isDir \<Rightarrow> (if isDir then False else True))"

definition exists_state :: "fs \<Rightarrow> string \<Rightarrow> bool" where
  "exists_state s name =
     (case os_Stat s (name @ stateFileExt) of
        Inl err \<Rightarrow> False
      | Inr isDir \<Rightarrow> (if isDir then False else True))"

subsection \<open>The handlers\<close>

text \<open>
  A handler takes the response writer and the directory and returns both as it leaves
  them. The request of \<^verbatim>\<open>handlePost\<close> is its body as \<^verbatim>\<open>io.ReadAll\<close> delivers it:
  \<open>None\<close> when the read fails.
\<close>

definition handleGet :: "fs \<Rightarrow> ResponseWriter \<Rightarrow> string \<Rightarrow> ResponseWriter \<times> fs" where
  "handleGet s w name =
     (let filePath = name @ stateFileExt in
      case os_ReadFile s filePath of
        Inl err \<Rightarrow>
          (if is_ErrNotExist err then (http_Error w ''Not Found'' StatusNotFound, s)
           else (http_Error w ''Internal Server Error'' StatusInternalServerError, s))
      | Inr data \<Rightarrow> (Write w data, s))"

definition handlePost ::
  "fs \<Rightarrow> ResponseWriter \<Rightarrow> string option \<Rightarrow> string \<Rightarrow> ResponseWriter \<times> fs" where
  "handlePost s w body name =
     (if isLocked s name then (http_Error w ''Locked'' StatusLocked, s)
      else
        (case body of
           None \<Rightarrow> (http_Error w ''Bad Request'' StatusBadRequest, s)
         | Some data \<Rightarrow>
             (let filePath = name @ stateFileExt;
                  w1 = (if \<not> exists_state s name then WriteHeader w StatusCreated else w)
              in case os_WriteFile s filePath data of
                   (Some err, s') \<Rightarrow>
                     (http_Error w1 ''Internal Server Error'' StatusInternalServerError, s')
                 | (None, s') \<Rightarrow> (w1, s'))))"

definition handleDelete :: "fs \<Rightarrow> ResponseWriter \<Rightarrow> string \<Rightarrow> ResponseWriter \<times> fs" where
  "handleDelete s w name =
     (if isLocked s name then (http_Error w ''Locked'' StatusLocked, s)
      else
        (let filePath = name @ stateFileExt in
         case os_Remove s filePath of
           (Some err, s') \<Rightarrow>
             (http_Error w ''Internal Server Error'' StatusInternalServerError, s')
         | (None, s') \<Rightarrow> (w, s')))"

definition handleLock :: "fs \<Rightarrow> ResponseWriter \<Rightarrow> string \<Rightarrow> ResponseWriter \<times> fs" where
  "handleLock s w name =
     (if isLocked s name then (http_Error w ''Locked'' StatusLocked, s)
      else
        (let lockFile = name @ lockFileExt in
         case os_Create s lockFile of
           (Some err, s') \<Rightarrow>
             (http_Error w ''Internal Server Error'' StatusInternalServerError, s')
         | (None, s') \<Rightarrow> (w, s')))"

definition handleUnlock :: "fs \<Rightarrow> ResponseWriter \<Rightarrow> string \<Rightarrow> ResponseWriter \<times> fs" where
  "handleUnlock s w name =
     (if \<not> isLocked s name then (http_Error w ''Conflict'' StatusConflict, s)
      else
        (let lockFile = name @ lockFileExt in
         case os_Remove s lockFile of
           (Some err, s') \<Rightarrow>
             (http_Error w ''Internal Server Error'' StatusInternalServerError, s')
         | (None, s') \<Rightarrow> (w, s')))"

text \<open>\<^verbatim>\<open>handleState\<close>: the dispatch on the request's method.\<close>

definition handleState ::
  "fs \<Rightarrow> ResponseWriter \<Rightarrow> string \<Rightarrow> string option \<Rightarrow> string \<Rightarrow> ResponseWriter \<times> fs" where
  "handleState s w method body name =
     (if name = [] then (http_Error w ''Bad Request: missing name'' StatusBadRequest, s)
      else if method = ''GET'' then handleGet s w name
      else if method = ''POST'' then handlePost s w body name
      else if method = ''DELETE'' then handleDelete s w name
      else if method = ''LOCK'' then handleLock s w name
      else if method = ''UNLOCK'' then handleUnlock s w name
      else (http_Error w ''Method Not Allowed'' StatusMethodNotAllowed, s))"

text \<open>
  \<^verbatim>\<open>allStates\<close>: \<open>dirOpen\<close> is the error of \<^verbatim>\<open>os.Open(s.path)\<close>, if any, and
  \<open>readDir\<close> the result of \<^verbatim>\<open>dir.ReadDir(0)\<close>. The JSON encoder belongs to the
  standard library and is the parameter \<open>encode\<close>, applied to the status text and the
  roster of the \<^verbatim>\<open>Result\<close> value; it writes its output to the response in one
  \<^verbatim>\<open>Write\<close>.
\<close>

definition allStates ::
  "(string \<Rightarrow> States \<Rightarrow> string) \<Rightarrow> errno option \<Rightarrow> errno + string list \<Rightarrow> ResponseWriter
     \<Rightarrow> ResponseWriter" where
  "allStates encode dirOpen readDir w =
     (case dirOpen of
        Some err \<Rightarrow> http_Error w ''Internal Server Error'' StatusInternalServerError
      | None \<Rightarrow>
          (case readDir of
             Inl err \<Rightarrow> http_Error w ''Internal Server Error'' StatusInternalServerError
           | Inr entries \<Rightarrow>
               (case processEntries entries stateFileExt States_Add [] of
                  Inl err \<Rightarrow> http_Error w ''Internal Server Error'' StatusInternalServerError
                | Inr states1 \<Rightarrow>
                    (case processEntries entries lockFileExt States_Lock states1 of
                       Inl err \<Rightarrow>
                         http_Error w ''Internal Server Error'' StatusInternalServerError
                     | Inr states \<Rightarrow> Write w (encode ''ok'' states)))))"

subsection \<open>Notions used to state the properties\<close>

text \<open>
  The names that a listing holds under an extension: the entries that end in the
  extension, with the extension cut off.
\<close>

definition names_with :: "string \<Rightarrow> string list \<Rightarrow> string list" where
  "names_with ext es = map (\<lambda>e. TrimSuffix e ext) (filter (\<lambda>e. HasSuffix e ext) es)"

text \<open>
  The roster a listing stands for: one state per content artifact, in the order of the
  listing, locked when the listing holds the lock marker of the same name.
\<close>

definition roster :: "string list \<Rightarrow> States" where
  "roster es =
     map (\<lambda>n. \<lparr>Name = n, Locked = (n @ lockFileExt \<in> set es)\<rparr>) (names_with stateFileExt es)"

text \<open>
  A create-or-replace request has succeeded when its response carries status 200 or 201
  and no error text.
\<close>

definition post_succeeded :: "ResponseWriter \<Rightarrow> bool" where
  "post_succeeded w = ((Code w = StatusOK \<or> Code w = StatusCreated) \<and> Body w = [])"

subsection \<open>Example directories\<close>

definition fs_empty :: fs where
  "fs_empty = \<lparr>nodes = Map.empty, fault = (\<lambda>c p. None), written = (\<lambda>p. 0)\<rparr>"

definition fs_present :: fs where
  "fs_present =
     \<lparr>nodes = [''s.tfstate'' \<mapsto> File ''{}''], fault = (\<lambda>c p. None), written = (\<lambda>p. 0)\<rparr>"

definition fs_locked :: fs where
  "fs_locked =
     \<lparr>nodes = [''s.tfstate'' \<mapsto> File ''{}'', ''s.lock'' \<mapsto> File []],
      fault = (\<lambda>c p. None), written = (\<lambda>p. 0)\<rparr>"

text \<open>A storage directory that has become read-only: every create-or-truncate fails.\<close>

definition fs_readonly :: fs where
  "fs_readonly =
     \<lparr>nodes = Map.empty,
      fault = (\<lambda>c p. if c = SysCreat then Some EACCES else None), written = (\<lambda>p. 0)\<rparr>"

text \<open>A locked state in a directory whose entries cannot be examined: every stat fails.\<close>

definition fs_stat_denied :: fs where
  "fs_stat_denied =
     \<lparr>nodes = [''s.tfstate'' \<mapsto> File ''{}'', ''s.lock'' \<mapsto> File []],
      fault = (\<lambda>c p. if c = SysStat then Some EACCES else None), written = (\<lambda>p. 0)\<rparr>"

text \<open>A state whose content cannot be read.\<close>

definition fs_unreadable :: fs where
  "fs_unreadable =
     \<lparr>nodes = [''s.tfstate'' \<mapsto> File ''{}''],
      fault = (\<lambda>c p. if c = SysRead then Some EIO else None), written = (\<lambda>p. 0)\<rparr>"

text \<open>A stand-in for the JSON encoder: the status text, then each state with its flag.\<close>

definition encode_plain :: "string \<Rightarrow> States \<Rightarrow> string" where
  "encode_plain status states =
     status @ concat (map (\<lambda>st. '' '' @ Name st @ (if Locked st then ''+'' else ''-'')) states)"

definition listing_ok :: "string list" where
  "listing_ok = [''a.tfstate'', ''a.lock'', ''b.tfstate'', ''README.md'']"

definition listing_orphan :: "string list" where
  "listing_orphan = [''a.tfstate'', ''b.lock'']"

section \<open>Properties\<close>

subsection \<open>Responses on a fresh writer\<close>

lemma Code_NewRecorder: "Code NewRecorder = StatusOK"
  by (simp add: NewRecorder_def)

lemma http_Error_fresh:
  "http_Error NewRecorder msg c = \<lparr>wroteHeader = True, Code = c, Body = msg @ [CHR 0x0A]\<rparr>"
  by (simp add: http_Error_def Write_def WriteHeader_def NewRecorder_def Let_def)

lemma Write_fresh: "Write NewRecorder b = \<lparr>wroteHeader = True, Code = StatusOK, Body = b\<rparr>"
  by (simp add: Write_def WriteHeader_def NewRecorder_def Let_def)

lemma Body_http_Error: "Body (http_Error w msg c) \<noteq> []"
  by (simp add: http_Error_def Write_def WriteHeader_def Let_def)

subsection \<open>Content artifacts and lock markers never share an entry\<close>

lemma ext_paths_differ: "a @ stateFileExt \<noteq> b @ lockFileExt"
proof
  assume "a @ stateFileExt = b @ lockFileExt"
  then have "last (a @ stateFileExt) = last (b @ lockFileExt)" by simp
  then show False by (simp add: stateFileExt_def lockFileExt_def)
qed

subsection \<open>The checks and the system calls\<close>

lemma isLocked_present:
  "nodes s (N @ lockFileExt) = Some (File m) \<Longrightarrow> fault s SysStat (N @ lockFileExt) = None
   \<Longrightarrow> isLocked s N"
  by (simp add: isLocked_def os_Stat_def)

lemma isLocked_absent: "nodes s (N @ lockFileExt) = None \<Longrightarrow> \<not> isLocked s N"
  by (simp add: isLocked_def os_Stat_def split: option.splits)

lemma exists_state_iff:
  "fault s SysStat (N @ stateFileExt) = None \<Longrightarrow>
   exists_state s N = (\<exists>b. nodes s (N @ stateFileExt) = Some (File b))"
  by (auto simp: exists_state_def os_Stat_def split: option.splits node.splits)

lemma os_Remove_absent: "nodes s p = None \<Longrightarrow> \<exists>e. os_Remove s p = (Some e, s)"
  by (simp add: os_Remove_def sys_unlink_def sys_rmdir_def split: option.splits)

lemma os_WriteFile_ok:
  "os_WriteFile s p B = (None, s') \<Longrightarrow>
   s' = s\<lparr>nodes := (nodes s)(p \<mapsto> File B)\<rparr> \<and> (\<forall>em. nodes s p \<noteq> Some (Dir em))"
  by (auto simp: os_WriteFile_def split: option.splits node.splits)

lemma handlePost_success:
  assumes "Body (fst (handlePost s NewRecorder (Some B) N)) = []"
  shows "\<not> isLocked s N
       \<and> os_WriteFile s (N @ stateFileExt) B =
           (None, s\<lparr>nodes := (nodes s)(N @ stateFileExt \<mapsto> File B)\<rparr>)
       \<and> handlePost s NewRecorder (Some B) N =
           (if \<not> exists_state s N then WriteHeader NewRecorder StatusCreated else NewRecorder,
            s\<lparr>nodes := (nodes s)(N @ stateFileExt \<mapsto> File B)\<rparr>)"
proof -
  from assms have nl: "\<not> isLocked s N"
    by (auto simp: handlePost_def Body_http_Error split: if_splits)
  obtain r s' where w: "os_WriteFile s (N @ stateFileExt) B = (r, s')"
    by (cases "os_WriteFile s (N @ stateFileExt) B")
  with assms nl have r: "r = None"
    by (cases r) (auto simp: handlePost_def Let_def Body_http_Error)
  with w os_WriteFile_ok[of s "N @ stateFileExt" B s']
  have s': "s' = s\<lparr>nodes := (nodes s)(N @ stateFileExt \<mapsto> File B)\<rparr>" by simp
  show ?thesis using nl w r s' by (simp add: handlePost_def Let_def)
qed

subsection \<open>Extensions and names\<close>

lemma HasSuffix_iff: "HasSuffix e x = (\<exists>pre. e = pre @ x)"
proof
  assume "HasSuffix e x"
  then have "e = take (length e - length x) e @ x"
    by (metis HasSuffix_def append_take_drop_id)
  then show "\<exists>pre. e = pre @ x" ..
next
  assume "\<exists>pre. e = pre @ x"
  then show "HasSuffix e x" by (auto simp: HasSuffix_def)
qed

lemma TrimSuffix_append [simp]: "TrimSuffix (pre @ x) x = pre"
  by (simp add: TrimSuffix_def HasSuffix_def)

lemma HasSuffix_append [simp]: "HasSuffix (pre @ x) x"
  by (simp add: HasSuffix_def)

lemma Ext_scan_suffix:
  "Ext_scan xs acc \<noteq> [] \<Longrightarrow> \<exists>pre. rev xs @ acc = pre @ Ext_scan xs acc"
proof (induction xs arbitrary: acc)
  case Nil
  then show ?case by simp
next
  case (Cons c cs)
  show ?case
  proof (cases "c = CHR ''/''")
    case True
    with Cons.prems show ?thesis by simp
  next
    case False
    show ?thesis
    proof (cases "c = CHR ''.''")
      case True
      then show ?thesis by simp
    next
      case dot: False
      with False Cons.prems have "Ext_scan cs (c # acc) \<noteq> []" by simp
      from Cons.IH[OF this] False dot show ?thesis by simp
    qed
  qed
qed

lemma Ext_suffix: "Ext e \<noteq> [] \<Longrightarrow> \<exists>pre. e = pre @ Ext e"
  using Ext_scan_suffix[of "rev e" "[]"] by (simp add: Ext_def)

lemma Ext_state [simp]: "Ext (pre @ stateFileExt) = stateFileExt"
  by (simp add: Ext_def stateFileExt_def)

lemma Ext_lock [simp]: "Ext (pre @ lockFileExt) = lockFileExt"
  by (simp add: Ext_def lockFileExt_def)

lemma Ext_state_iff: "(Ext e = stateFileExt) = HasSuffix e stateFileExt"
proof
  assume h: "Ext e = stateFileExt"
  then have "Ext e \<noteq> []" by (simp add: stateFileExt_def)
  from Ext_suffix[OF this] h show "HasSuffix e stateFileExt" by (auto simp: HasSuffix_iff)
next
  assume "HasSuffix e stateFileExt"
  then show "Ext e = stateFileExt" by (auto simp: HasSuffix_iff)
qed

lemma Ext_lock_iff: "(Ext e = lockFileExt) = HasSuffix e lockFileExt"
proof
  assume h: "Ext e = lockFileExt"
  then have "Ext e \<noteq> []" by (simp add: lockFileExt_def)
  from Ext_suffix[OF this] h show "HasSuffix e lockFileExt" by (auto simp: HasSuffix_iff)
next
  assume "HasSuffix e lockFileExt"
  then show "Ext e = lockFileExt" by (auto simp: HasSuffix_iff)
qed

lemma mem_names_with: "(n \<in> set (names_with x es)) = (n @ x \<in> set es)"
proof
  assume "n \<in> set (names_with x es)"
  then show "n @ x \<in> set es" by (auto simp: names_with_def HasSuffix_iff)
next
  assume h: "n @ x \<in> set es"
  have "TrimSuffix (n @ x) x = n" by simp
  with h show "n \<in> set (names_with x es)"
    unfolding names_with_def set_map set_filter
    by (intro image_eqI[where x = "n @ x"]) simp_all
qed

lemma distinct_names_with: "distinct es \<Longrightarrow> distinct (names_with x es)"
  unfolding names_with_def
  by (rule distinct_map[THEN iffD2]) (auto simp: inj_on_def HasSuffix_iff)

lemma names_with_Cons:
  "names_with x (e # es) =
     (if HasSuffix e x then TrimSuffix e x # names_with x es else names_with x es)"
  by (simp add: names_with_def)


subsection \<open>The roster operations\<close>

lemma States_State_None: "(States_State s n = None) = (n \<notin> Name ` set s)"
  by (induction s) (auto split: option.splits)

lemma States_State_Some:
  "States_State s n = Some i \<Longrightarrow> i < length s \<and> Name (s ! i) = n"
proof (induction s arbitrary: i)
  case Nil
  then show ?case by simp
next
  case (Cons st rest)
  show ?case
  proof (cases "Name st = n")
    case True
    with Cons.prems show ?thesis by simp
  next
    case False
    with Cons.prems obtain j where j: "States_State rest n = Some j" "i = Suc j"
      by (auto split: option.splits)
    from Cons.IH[OF j(1)] j(2) show ?thesis by simp
  qed
qed

lemma update_by_name:
  assumes "distinct (map Name s)" and "i < length s" and "Name (s ! i) = n"
  shows "s[i := f (s ! i)] = map (\<lambda>st. if Name st = n then f st else st) s"
proof (rule nth_equalityI)
  show "length (s[i := f (s ! i)]) = length (map (\<lambda>st. if Name st = n then f st else st) s)"
    by simp
next
  fix j assume "j < length (s[i := f (s ! i)])"
  then have j: "j < length s" by simp
  show "s[i := f (s ! i)] ! j = map (\<lambda>st. if Name st = n then f st else st) s ! j"
  proof (cases "j = i")
    case True
    with assms show ?thesis by simp
  next
    case False
    have "Name (s ! j) \<noteq> Name (s ! i)"
      using nth_eq_iff_index_eq[OF assms(1), of j i] assms(2) j False by simp
    with assms(3) have "Name (s ! j) \<noteq> n" by simp
    with False j show ?thesis by simp
  qed
qed

lemma States_Add_new:
  "n \<notin> Name ` set s \<Longrightarrow> States_Add n s = Inr (s @ [\<lparr>Name = n, Locked = False\<rparr>])"
  using States_State_None[of s n] by (simp add: States_Add_def)

lemma States_Lock_missing: "n \<notin> Name ` set s \<Longrightarrow> States_Lock n s = Inl ErrNotExists"
  using States_State_None[of s n] by (simp add: States_Lock_def)

lemma States_Lock_unlocked:
  assumes "distinct (map Name s)" and "n \<in> Name ` set s"
    and "\<forall>st \<in> set s. Name st = n \<longrightarrow> \<not> Locked st"
  shows "States_Lock n s = Inr (map (\<lambda>st. if Name st = n then st\<lparr>Locked := True\<rparr> else st) s)"
proof -
  from assms(2) obtain i where i: "States_State s n = Some i"
    using States_State_None[of s n] by (cases "States_State s n") auto
  note p = States_State_Some[OF i]
  then have "s ! i \<in> set s" by simp
  with assms(3) p have "\<not> Locked (s ! i)" by blast
  then have "States_Lock n s = Inr (s[i := (s ! i)\<lparr>Locked := True\<rparr>])"
    using i by (simp add: States_Lock_def State_Lock_def)
  also have "s[i := (s ! i)\<lparr>Locked := True\<rparr>] =
             map (\<lambda>st. if Name st = n then st\<lparr>Locked := True\<rparr> else st) s"
    using update_by_name[of s i n "\<lambda>st. st\<lparr>Locked := True\<rparr>"] assms(1) p by simp
  finally show ?thesis .
qed

lemma States_Lock_names: "States_Lock n s = Inr s' \<Longrightarrow> map Name s' = map Name s"
proof -
  assume h: "States_Lock n s = Inr s'"
  then obtain i where i: "States_State s n = Some i"
    by (cases "States_State s n") (auto simp: States_Lock_def)
  note p = States_State_Some[OF i]
  from h i have "s' = s[i := (s ! i)\<lparr>Locked := True\<rparr>]"
    by (auto simp: States_Lock_def State_Lock_def split: if_splits)
  with p show ?thesis by (simp add: map_update list_update_same_conv)
qed

subsection \<open>Scanning a listing\<close>

lemma processEntries_state:
  "processEntries (e # es) stateFileExt action s =
     (if HasSuffix e stateFileExt then
        (case action (TrimSuffix e stateFileExt) s of
           Inl err \<Rightarrow> Inl (ErrEntry (TrimSuffix e stateFileExt) err)
         | Inr s' \<Rightarrow> processEntries es stateFileExt action s')
      else processEntries es stateFileExt action s)"
  by (cases "Ext e = stateFileExt") (simp_all add: Ext_state_iff[symmetric] Let_def)

lemma processEntries_lock:
  "processEntries (e # es) lockFileExt action s =
     (if HasSuffix e lockFileExt then
        (case action (TrimSuffix e lockFileExt) s of
           Inl err \<Rightarrow> Inl (ErrEntry (TrimSuffix e lockFileExt) err)
         | Inr s' \<Rightarrow> processEntries es lockFileExt action s')
      else processEntries es lockFileExt action s)"
  by (cases "Ext e = lockFileExt") (simp_all add: Ext_lock_iff[symmetric] Let_def)

lemma processEntries_Add:
  "distinct (map Name s @ names_with stateFileExt es) \<Longrightarrow>
   processEntries es stateFileExt States_Add s =
     Inr (s @ map (\<lambda>n. \<lparr>Name = n, Locked = False\<rparr>) (names_with stateFileExt es))"
proof (induction es arbitrary: s)
  case Nil
  then show ?case by (simp add: names_with_def)
next
  case (Cons e es)
  show ?case
  proof (cases "HasSuffix e stateFileExt")
    case False
    with Cons show ?thesis by (simp add: processEntries_state names_with_Cons del: processEntries.simps(2))
  next
    case True
    let ?n = "TrimSuffix e stateFileExt"
    let ?s' = "s @ [\<lparr>Name = ?n, Locked = False\<rparr>]"
    from Cons.prems True have new: "?n \<notin> Name ` set s"
      by (auto simp: names_with_Cons)
    from Cons.prems True have "distinct (map Name ?s' @ names_with stateFileExt es)"
      by (auto simp: names_with_Cons)
    from Cons.IH[OF this] True States_Add_new[OF new] show ?thesis
      by (simp add: processEntries_state names_with_Cons del: processEntries.simps(2))
  qed
qed

lemma processEntries_Lock:
  "distinct (map Name s) \<Longrightarrow> distinct (names_with lockFileExt es) \<Longrightarrow>
   set (names_with lockFileExt es) \<subseteq> Name ` set s \<Longrightarrow>
   \<forall>st \<in> set s. Name st \<in> set (names_with lockFileExt es) \<longrightarrow> \<not> Locked st \<Longrightarrow>
   processEntries es lockFileExt States_Lock s =
     Inr (map (\<lambda>st. if Name st \<in> set (names_with lockFileExt es)
                     then st\<lparr>Locked := True\<rparr> else st) s)"
proof (induction es arbitrary: s)
  case Nil
  then show ?case by (simp add: names_with_def)
next
  case (Cons e es)
  show ?case
  proof (cases "HasSuffix e lockFileExt")
    case False
    with Cons show ?thesis by (simp add: processEntries_lock names_with_Cons del: processEntries.simps(2))
  next
    case True
    let ?n = "TrimSuffix e lockFileExt"
    let ?L = "names_with lockFileExt es"
    let ?s' = "map (\<lambda>st. if Name st = ?n then st\<lparr>Locked := True\<rparr> else st) s"
    from Cons.prems True have n: "?n \<in> Name ` set s" "?n \<notin> set ?L" "distinct ?L"
      "set ?L \<subseteq> Name ` set s" "\<forall>st \<in> set s. Name st = ?n \<longrightarrow> \<not> Locked st"
      by (auto simp: names_with_Cons)
    have lk: "States_Lock ?n s = Inr ?s'"
      using States_Lock_unlocked[OF Cons.prems(1) n(1) n(5)] .
    have names: "map Name ?s' = map Name s" by (induction s) auto
    have d: "distinct (map Name ?s')" using Cons.prems(1) by (simp only: names)
    have sub: "set ?L \<subseteq> Name ` set ?s'"
      using n(4) names by (metis set_map)
    have un: "\<forall>st \<in> set ?s'. Name st \<in> set ?L \<longrightarrow> \<not> Locked st"
      using Cons.prems(4) True n(2) by (auto simp: names_with_Cons)
    have "processEntries (e # es) lockFileExt States_Lock s =
            processEntries es lockFileExt States_Lock ?s'"
      using True lk by (simp add: processEntries_lock del: processEntries.simps(2))
    also have "\<dots> = Inr (map (\<lambda>st. if Name st \<in> set ?L then st\<lparr>Locked := True\<rparr> else st) ?s')"
      using Cons.IH[OF d n(3) sub un] .
    also have "map (\<lambda>st. if Name st \<in> set ?L then st\<lparr>Locked := True\<rparr> else st) ?s' =
               map (\<lambda>st. if Name st \<in> set (names_with lockFileExt (e # es))
                          then st\<lparr>Locked := True\<rparr> else st) s"
      using True by (auto simp: names_with_Cons)
    finally show ?thesis .
  qed
qed

lemma processEntries_Lock_missing:
  "n \<in> set (names_with lockFileExt es) \<Longrightarrow> n \<notin> Name ` set s \<Longrightarrow>
   \<exists>err. processEntries es lockFileExt States_Lock s = Inl err"
proof (induction es arbitrary: s)
  case Nil
  then show ?case by (simp add: names_with_def)
next
  case (Cons e es)
  show ?case
  proof (cases "HasSuffix e lockFileExt")
    case False
    with Cons show ?thesis by (simp add: processEntries_lock names_with_Cons del: processEntries.simps(2))
  next
    case True
    let ?m = "TrimSuffix e lockFileExt"
    show ?thesis
    proof (cases "States_Lock ?m s")
      case (Inl err)
      with True show ?thesis by (simp add: processEntries_lock del: processEntries.simps(2))
    next
      case (Inr s')
      from States_Lock_names[OF Inr] have nm: "Name ` set s' = Name ` set s"
        by (metis set_map)
      have "?m \<noteq> n" using Inr States_Lock_missing[OF Cons.prems(2)] by auto
      with Cons.prems(1) True have "n \<in> set (names_with lockFileExt es)"
        by (simp add: names_with_Cons)
      from Cons.IH[OF this, of s'] nm Cons.prems(2) Inr True show ?thesis
        by (simp add: processEntries_lock del: processEntries.simps(2))
    qed
  qed
qed

section \<open>The claims\<close>

text \<open>
  In the statements below a lock marker or a content artifact is \<^emph>\<open>present\<close> when its
  entry is a regular file, and \<^emph>\<open>absent\<close> when the directory has no such entry. Where a
  statement depends on a system call reporting what the directory holds, it says which
  call must not fail for an outside reason.
\<close>

subsection \<open>C1: content is protected while the lock marker is present\<close>

text \<open>
  Claim C1. For every name \<open>N\<close> whose lock marker is present (and can be examined), a
  POST for \<open>N\<close>, whatever its body, and a DELETE for \<open>N\<close> each answer 423 and leave the
  whole directory, hence \<open>N\<close>'s content artifact, as it was: nothing is written and
  nothing is removed.
\<close>

theorem C1_locked_rejects_post_and_delete:
  assumes "nodes s (N @ lockFileExt) = Some (File m)"
    and "fault s SysStat (N @ lockFileExt) = None"
  shows "Code (fst (handlePost s NewRecorder body N)) = StatusLocked
       \<and> snd (handlePost s NewRecorder body N) = s
       \<and> Code (fst (handleDelete s NewRecorder N)) = StatusLocked
       \<and> snd (handleDelete s NewRecorder N) = s"
  using isLocked_present[OF assms]
  by (simp add: handlePost_def handleDelete_def http_Error_fresh)

theorem C1_locked_rejects_post_and_delete_witness:
  "nodes fs_locked (''s'' @ lockFileExt) = Some (File [])
   \<and> fault fs_locked SysStat (''s'' @ lockFileExt) = None
   \<and> Code (fst (handlePost fs_locked NewRecorder (Some ''x'') ''s'')) = StatusLocked
   \<and> snd (handlePost fs_locked NewRecorder (Some ''x'') ''s'') = fs_locked
   \<and> Code (fst (handleDelete fs_locked NewRecorder ''s'')) = StatusLocked
   \<and> snd (handleDelete fs_locked NewRecorder ''s'') = fs_locked"
proof -
  have h1: "nodes fs_locked (''s'' @ lockFileExt) = Some (File [])"
    by (simp add: fs_locked_def lockFileExt_def)
  have h2: "fault fs_locked SysStat (''s'' @ lockFileExt) = None"
    by (simp add: fs_locked_def)
  show ?thesis
    using h1 h2 C1_locked_rejects_post_and_delete[OF h1 h2, of "Some ''x''"] by simp
qed

subsection \<open>C2: deleting an absent state\<close>

text \<open>
  Claim C2 says that a DELETE for an unlocked name without content answers 200. In the
  empty directory, with no call failing for an outside reason, the handler answers 500:
  \<^verbatim>\<open>os.Remove\<close> fails with \<open>ENOENT\<close> and \<^verbatim>\<open>handleDelete\<close> reports every error of
  the removal.
\<close>

theorem C2_delete_absent_counterexample:
  "\<not> isLocked fs_empty ''s''
   \<and> nodes fs_empty (''s'' @ stateFileExt) = None
   \<and> os_Remove fs_empty (''s'' @ stateFileExt) = (Some ENOENT, fs_empty)
   \<and> Code (fst (handleDelete fs_empty NewRecorder ''s'')) = StatusInternalServerError
   \<and> Code (fst (handleDelete fs_empty NewRecorder ''s'')) \<noteq> StatusOK"
  by (simp add: fs_empty_def handleDelete_def isLocked_def os_Stat_def os_Remove_def
      sys_unlink_def sys_rmdir_def http_Error_fresh)

text \<open>
  Claim C2, amended. For every name \<open>N\<close> that is not locked and whose content artifact
  is absent, a DELETE for \<open>N\<close> reports the failed removal: the response is 500 with the
  text of an internal error, and the directory is unchanged.
\<close>

theorem C2_delete_absent_reports_error:
  assumes "\<not> isLocked s N" and "nodes s (N @ stateFileExt) = None"
  shows "handleDelete s NewRecorder N =
           (http_Error NewRecorder ''Internal Server Error'' StatusInternalServerError, s)
       \<and> Code (fst (handleDelete s NewRecorder N)) = StatusInternalServerError"
proof -
  obtain e where "os_Remove s (N @ stateFileExt) = (Some e, s)"
    using os_Remove_absent[OF assms(2)] by blast
  then show ?thesis using assms(1) by (simp add: handleDelete_def http_Error_fresh)
qed

theorem C2_delete_absent_reports_error_witness:
  "\<not> isLocked fs_empty ''s''
   \<and> nodes fs_empty (''s'' @ stateFileExt) = None
   \<and> handleDelete fs_empty NewRecorder ''s'' =
       (http_Error NewRecorder ''Internal Server Error'' StatusInternalServerError, fs_empty)
   \<and> Code (fst (handleDelete fs_empty NewRecorder ''s'')) = StatusInternalServerError"
proof -
  have h1: "\<not> isLocked fs_empty ''s''"
    by (simp add: fs_empty_def isLocked_def os_Stat_def)
  have h2: "nodes fs_empty (''s'' @ stateFileExt) = None"
    by (simp add: fs_empty_def)
  show ?thesis using h1 h2 C2_delete_absent_reports_error[OF h1 h2] by blast
qed

subsection \<open>C3: a failing write of a new state\<close>

text \<open>
  Claim C3 says that a POST whose write fails answers 500, also when the name had no
  content before. In a read-only directory without the entry, \<^verbatim>\<open>handlePost\<close> has already
  sent the header 201 when \<^verbatim>\<open>os.WriteFile\<close> fails, so the \<^verbatim>\<open>WriteHeader(500)\<close> of
  \<^verbatim>\<open>http.Error\<close> is ignored: the response carries status 201 and the error text.
\<close>

theorem C3_failed_write_of_new_state_answers_201:
  "\<not> isLocked fs_readonly ''s''
   \<and> nodes fs_readonly (''s'' @ stateFileExt) = None
   \<and> os_WriteFile fs_readonly (''s'' @ stateFileExt) ''{}'' = (Some EACCES, fs_readonly)
   \<and> Code (fst (handlePost fs_readonly NewRecorder (Some ''{}'') ''s'')) = StatusCreated
   \<and> Body (fst (handlePost fs_readonly NewRecorder (Some ''{}'') ''s'')) =
       ''Internal Server Error'' @ [CHR 0x0A]
   \<and> snd (handlePost fs_readonly NewRecorder (Some ''{}'') ''s'') = fs_readonly"
  by (simp add: fs_readonly_def handlePost_def isLocked_def exists_state_def os_Stat_def
      os_WriteFile_def http_Error_def Write_def WriteHeader_def NewRecorder_def Let_def)

subsection \<open>C4: LOCK\<close>

text \<open>
  Claim C4. For every name \<open>N\<close> without a lock marker, whether or not \<open>N\<close> has content, a
  LOCK (whose create call does not fail) creates the marker, an empty file, answers 200
  and leaves \<open>N\<close>'s content artifact as it was; for every name \<open>N\<close> whose lock marker is present (and can be
  examined), a LOCK answers 423 and leaves the directory, marker and content, unchanged.
\<close>

theorem C4_lock:
  "(nodes s (N @ lockFileExt) = None \<and> fault s SysCreat (N @ lockFileExt) = None \<longrightarrow>
      Code (fst (handleLock s NewRecorder N)) = StatusOK
      \<and> nodes (snd (handleLock s NewRecorder N)) (N @ lockFileExt) = Some (File [])
      \<and> nodes (snd (handleLock s NewRecorder N)) (N @ stateFileExt) = nodes s (N @ stateFileExt))
   \<and> (nodes s (N @ lockFileExt) = Some (File m) \<and> fault s SysStat (N @ lockFileExt) = None \<longrightarrow>
      Code (fst (handleLock s NewRecorder N)) = StatusLocked
      \<and> snd (handleLock s NewRecorder N) = s)"
  using ext_paths_differ[of N N]
  by (auto simp: handleLock_def isLocked_absent isLocked_present os_Create_def
      http_Error_fresh Code_NewRecorder)

theorem C4_lock_witness:
  "(nodes fs_empty (''s'' @ lockFileExt) = None \<and> fault fs_empty SysCreat (''s'' @ lockFileExt) = None)
   \<and> (nodes fs_present (''s'' @ lockFileExt) = None
        \<and> fault fs_present SysCreat (''s'' @ lockFileExt) = None)
   \<and> (nodes fs_locked (''s'' @ lockFileExt) = Some (File [])
        \<and> fault fs_locked SysStat (''s'' @ lockFileExt) = None)
   \<and> Code (fst (handleLock fs_empty NewRecorder ''s'')) = StatusOK
   \<and> nodes (snd (handleLock fs_empty NewRecorder ''s'')) (''s'' @ lockFileExt) = Some (File [])
   \<and> Code (fst (handleLock fs_present NewRecorder ''s'')) = StatusOK
   \<and> nodes (snd (handleLock fs_present NewRecorder ''s'')) (''s'' @ lockFileExt) = Some (File [])
   \<and> nodes (snd (handleLock fs_present NewRecorder ''s'')) (''s'' @ stateFileExt) =
       nodes fs_present (''s'' @ stateFileExt)
   \<and> Code (fst (handleLock fs_locked NewRecorder ''s'')) = StatusLocked
   \<and> snd (handleLock fs_locked NewRecorder ''s'') = fs_locked"
proof -
  have a: "nodes fs_empty (''s'' @ lockFileExt) = None
           \<and> fault fs_empty SysCreat (''s'' @ lockFileExt) = None"
    by (simp add: fs_empty_def)
  have b: "nodes fs_present (''s'' @ lockFileExt) = None
           \<and> fault fs_present SysCreat (''s'' @ lockFileExt) = None"
    by (simp add: fs_present_def lockFileExt_def)
  have c: "nodes fs_locked (''s'' @ lockFileExt) = Some (File [])
           \<and> fault fs_locked SysStat (''s'' @ lockFileExt) = None"
    by (simp add: fs_locked_def lockFileExt_def)
  show ?thesis
    using a b c
      C4_lock[where s = fs_empty and N = "''s''" and m = "[]"]
      C4_lock[where s = fs_present and N = "''s''" and m = "[]"]
      C4_lock[where s = fs_locked and N = "''s''" and m = "[]"]
    by blast
qed

subsection \<open>C5: UNLOCK\<close>

text \<open>
  Claim C5. For every name \<open>N\<close> whose lock marker is present (and can be examined and
  unlinked), an UNLOCK removes the marker, answers 200 and leaves \<open>N\<close>'s content
  artifact as it was; for every name \<open>N\<close> without a lock marker, an UNLOCK
  answers 409 and changes nothing.
\<close>

theorem C5_unlock:
  "(nodes s (N @ lockFileExt) = Some (File m) \<and> fault s SysStat (N @ lockFileExt) = None
      \<and> fault s SysUnlink (N @ lockFileExt) = None \<longrightarrow>
      Code (fst (handleUnlock s NewRecorder N)) = StatusOK
      \<and> nodes (snd (handleUnlock s NewRecorder N)) (N @ lockFileExt) = None
      \<and> nodes (snd (handleUnlock s NewRecorder N)) (N @ stateFileExt) = nodes s (N @ stateFileExt))
   \<and> (nodes s (N @ lockFileExt) = None \<longrightarrow>
      Code (fst (handleUnlock s NewRecorder N)) = StatusConflict
      \<and> snd (handleUnlock s NewRecorder N) = s)"
  using ext_paths_differ[of N N]
  by (auto simp: handleUnlock_def isLocked_absent isLocked_present os_Remove_def sys_unlink_def
      http_Error_fresh Code_NewRecorder)

theorem C5_unlock_witness:
  "(nodes fs_locked (''s'' @ lockFileExt) = Some (File [])
      \<and> fault fs_locked SysStat (''s'' @ lockFileExt) = None
      \<and> fault fs_locked SysUnlink (''s'' @ lockFileExt) = None)
   \<and> nodes fs_present (''s'' @ lockFileExt) = None
   \<and> Code (fst (handleUnlock fs_locked NewRecorder ''s'')) = StatusOK
   \<and> nodes (snd (handleUnlock fs_locked NewRecorder ''s'')) (''s'' @ lockFileExt) = None
   \<and> nodes (snd (handleUnlock fs_locked NewRecorder ''s'')) (''s'' @ stateFileExt) =
       nodes fs_locked (''s'' @ stateFileExt)
   \<and> Code (fst (handleUnlock fs_present NewRecorder ''s'')) = StatusConflict
   \<and> snd (handleUnlock fs_present NewRecorder ''s'') = fs_present"
proof -
  have a: "nodes fs_locked (''s'' @ lockFileExt) = Some (File [])
           \<and> fault fs_locked SysStat (''s'' @ lockFileExt) = None
           \<and> fault fs_locked SysUnlink (''s'' @ lockFileExt) = None"
    by (simp add: fs_locked_def lockFileExt_def)
  have b: "nodes fs_present (''s'' @ lockFileExt) = None"
    by (simp add: fs_present_def lockFileExt_def)
  show ?thesis
    using a b
      C5_unlock[where s = fs_locked and N = "''s''" and m = "[]"]
      C5_unlock[where s = fs_present and N = "''s''" and m = "[]"]
    by blast
qed

subsection \<open>C6: the roster of a listing\<close>

text \<open>
  Claim C6. For every listing of the storage directory (entries with distinct names):
  when every lock marker of the listing has a content artifact of the same name, the list
  operation answers 200 with the encoding of a roster that holds exactly one state per
  content artifact, in the order of the listing, each locked exactly when the listing holds
  its lock marker; when some lock marker has no content artifact, it answers 500 with the
  text of an internal error only, and no roster, whole or partial, is written.
\<close>

theorem C6_allStates_roster:
  assumes "distinct es"
  shows "(set (names_with lockFileExt es) \<subseteq> set (names_with stateFileExt es) \<longrightarrow>
            allStates encode None (Inr es) NewRecorder =
              \<lparr>wroteHeader = True, Code = StatusOK, Body = encode ''ok'' (roster es)\<rparr>)
       \<and> (\<not> set (names_with lockFileExt es) \<subseteq> set (names_with stateFileExt es) \<longrightarrow>
            allStates encode None (Inr es) NewRecorder =
              \<lparr>wroteHeader = True, Code = StatusInternalServerError,
               Body = ''Internal Server Error'' @ [CHR 0x0A]\<rparr>)
       \<and> map Name (roster es) = names_with stateFileExt es
       \<and> distinct (names_with stateFileExt es)
       \<and> (\<forall>N. (N \<in> set (names_with stateFileExt es)) = (N @ stateFileExt \<in> set es))
       \<and> (\<forall>N. (N \<in> set (names_with lockFileExt es)) = (N @ lockFileExt \<in> set es))
       \<and> (\<forall>r \<in> set (roster es). Locked r = (Name r @ lockFileExt \<in> set es))"
proof -
  let ?S = "names_with stateFileExt es"
  let ?L = "names_with lockFileExt es"
  let ?s1 = "map (\<lambda>n. \<lparr>Name = n, Locked = False\<rparr>) ?S"
  have dS: "distinct ?S" and dL: "distinct ?L"
    using assms by (rule distinct_names_with)+
  have add: "processEntries es stateFileExt States_Add [] = Inr ?s1"
    using processEntries_Add[of "[]" es] dS by simp
  have n1: "map Name ?s1 = ?S" by (simp add: comp_def)
  have ok: "allStates encode None (Inr es) NewRecorder =
              \<lparr>wroteHeader = True, Code = StatusOK, Body = encode ''ok'' (roster es)\<rparr>"
    if sub: "set ?L \<subseteq> set ?S"
  proof -
    have d1: "distinct (map Name ?s1)" using dS by (simp only: n1)
    have sub1: "set ?L \<subseteq> Name ` set ?s1" using sub by (simp add: image_image)
    have un: "\<forall>st \<in> set ?s1. Name st \<in> set ?L \<longrightarrow> \<not> Locked st" by auto
    have "processEntries es lockFileExt States_Lock ?s1 =
            Inr (map (\<lambda>st. if Name st \<in> set ?L then st\<lparr>Locked := True\<rparr> else st) ?s1)"
      using processEntries_Lock[OF d1 dL sub1 un] .
    also have "map (\<lambda>st. if Name st \<in> set ?L then st\<lparr>Locked := True\<rparr> else st) ?s1 = roster es"
      by (simp add: roster_def mem_names_with)
    finally show ?thesis by (simp add: allStates_def add Write_fresh)
  qed
  have bad: "allStates encode None (Inr es) NewRecorder =
               \<lparr>wroteHeader = True, Code = StatusInternalServerError,
                Body = ''Internal Server Error'' @ [CHR 0x0A]\<rparr>"
    if nsub: "\<not> set ?L \<subseteq> set ?S"
  proof -
    from nsub obtain n where n: "n \<in> set ?L" "n \<notin> set ?S" by blast
    from n(2) have "n \<notin> Name ` set ?s1" by (simp add: image_image)
    from processEntries_Lock_missing[OF n(1) this]
    obtain err where "processEntries es lockFileExt States_Lock ?s1 = Inl err" ..
    then show ?thesis by (simp add: allStates_def add http_Error_fresh)
  qed
  have names: "map Name (roster es) = ?S" by (simp add: roster_def comp_def)
  have flags: "\<forall>r \<in> set (roster es). Locked r = (Name r @ lockFileExt \<in> set es)"
    by (auto simp: roster_def)
  show ?thesis using ok bad names dS flags by (simp add: mem_names_with)
qed

theorem C6_allStates_roster_witness:
  "distinct listing_ok
   \<and> distinct listing_orphan
   \<and> set (names_with lockFileExt listing_ok) \<subseteq> set (names_with stateFileExt listing_ok)
   \<and> \<not> set (names_with lockFileExt listing_orphan) \<subseteq> set (names_with stateFileExt listing_orphan)
   \<and> roster listing_ok = [\<lparr>Name = ''a'', Locked = True\<rparr>, \<lparr>Name = ''b'', Locked = False\<rparr>]
   \<and> allStates encode_plain None (Inr listing_ok) NewRecorder =
       \<lparr>wroteHeader = True, Code = StatusOK, Body = encode_plain ''ok'' (roster listing_ok)\<rparr>
   \<and> allStates encode_plain None (Inr listing_orphan) NewRecorder =
       \<lparr>wroteHeader = True, Code = StatusInternalServerError,
        Body = ''Internal Server Error'' @ [CHR 0x0A]\<rparr>"
proof -
  have a: "distinct listing_ok" by (simp add: listing_ok_def)
  have b: "distinct listing_orphan" by (simp add: listing_orphan_def)
  have S: "names_with stateFileExt listing_ok = [''a'', ''b'']"
    by (simp add: names_with_def listing_ok_def HasSuffix_def TrimSuffix_def stateFileExt_def)
  have L: "names_with lockFileExt listing_ok = [''a'']"
    by (simp add: names_with_def listing_ok_def HasSuffix_def TrimSuffix_def lockFileExt_def)
  have S': "names_with stateFileExt listing_orphan = [''a'']"
    by (simp add: names_with_def listing_orphan_def HasSuffix_def TrimSuffix_def stateFileExt_def)
  have L': "names_with lockFileExt listing_orphan = [''b'']"
    by (simp add: names_with_def listing_orphan_def HasSuffix_def TrimSuffix_def lockFileExt_def)
  have c: "set (names_with lockFileExt listing_ok) \<subseteq> set (names_with stateFileExt listing_ok)"
    by (simp add: S L)
  have d: "\<not> set (names_with lockFileExt listing_orphan)
             \<subseteq> set (names_with stateFileExt listing_orphan)"
    by (simp add: S' L')
  have r: "roster listing_ok = [\<lparr>Name = ''a'', Locked = True\<rparr>, \<lparr>Name = ''b'', Locked = False\<rparr>]"
    by (simp add: roster_def S) (simp add: listing_ok_def lockFileExt_def)
  show ?thesis
    using a b c d r
      C6_allStates_roster[OF a, where encode = encode_plain]
      C6_allStates_roster[OF b, where encode = encode_plain]
    by blast
qed

subsection \<open>C7: created or replaced\<close>

text \<open>
  Claim C7. For every name \<open>N\<close> that is not locked and every request body \<open>B\<close>, a
  successful POST answers 201 when \<open>N\<close>'s content artifact was absent before the write
  and 200 when it was present (the stat on it not failing for an outside reason);
  afterwards the content artifact is exactly \<open>B\<close>, whatever it held before.
\<close>

theorem C7_post_created_or_replaced:
  assumes "\<not> isLocked s N"
    and "fault s SysStat (N @ stateFileExt) = None"
    and "post_succeeded (fst (handlePost s NewRecorder (Some B) N))"
  shows "Code (fst (handlePost s NewRecorder (Some B) N)) =
           (if nodes s (N @ stateFileExt) = None then StatusCreated else StatusOK)
       \<and> nodes (snd (handlePost s NewRecorder (Some B) N)) (N @ stateFileExt) = Some (File B)"
proof -
  from assms(3) have b: "Body (fst (handlePost s NewRecorder (Some B) N)) = []"
    by (simp add: post_succeeded_def)
  note h = handlePost_success[OF b]
  from h have nd: "\<forall>em. nodes s (N @ stateFileExt) \<noteq> Some (Dir em)"
    using os_WriteFile_ok by blast
  have ex: "exists_state s N = (nodes s (N @ stateFileExt) \<noteq> None)"
  proof (cases "nodes s (N @ stateFileExt)")
    case None
    then show ?thesis by (simp add: exists_state_iff[OF assms(2)])
  next
    case (Some n)
    with nd show ?thesis by (cases n) (auto simp: exists_state_iff[OF assms(2)])
  qed
  show ?thesis using h ex by (simp add: WriteHeader_def NewRecorder_def)
qed

theorem C7_post_created_or_replaced_witness:
  "(\<not> isLocked fs_empty ''s'' \<and> fault fs_empty SysStat (''s'' @ stateFileExt) = None
      \<and> post_succeeded (fst (handlePost fs_empty NewRecorder (Some ''new'') ''s'')))
   \<and> (\<not> isLocked fs_present ''s'' \<and> fault fs_present SysStat (''s'' @ stateFileExt) = None
      \<and> post_succeeded (fst (handlePost fs_present NewRecorder (Some ''new'') ''s'')))
   \<and> nodes fs_empty (''s'' @ stateFileExt) = None
   \<and> Code (fst (handlePost fs_empty NewRecorder (Some ''new'') ''s'')) = StatusCreated
   \<and> nodes (snd (handlePost fs_empty NewRecorder (Some ''new'') ''s'')) (''s'' @ stateFileExt) =
       Some (File ''new'')
   \<and> nodes fs_present (''s'' @ stateFileExt) = Some (File ''{}'')
   \<and> Code (fst (handlePost fs_present NewRecorder (Some ''new'') ''s'')) = StatusOK
   \<and> nodes (snd (handlePost fs_present NewRecorder (Some ''new'') ''s'')) (''s'' @ stateFileExt) =
       Some (File ''new'')"
proof -
  have a1: "\<not> isLocked fs_empty ''s''"
    by (simp add: fs_empty_def isLocked_def os_Stat_def)
  have a2: "fault fs_empty SysStat (''s'' @ stateFileExt) = None"
    by (simp add: fs_empty_def)
  have a3: "post_succeeded (fst (handlePost fs_empty NewRecorder (Some ''new'') ''s''))"
    by (simp add: post_succeeded_def fs_empty_def handlePost_def isLocked_def exists_state_def
        os_Stat_def os_WriteFile_def WriteHeader_def NewRecorder_def Let_def)
  have a4: "nodes fs_empty (''s'' @ stateFileExt) = None"
    by (simp add: fs_empty_def)
  have b1: "\<not> isLocked fs_present ''s''"
    by (simp add: fs_present_def isLocked_def os_Stat_def lockFileExt_def)
  have b2: "fault fs_present SysStat (''s'' @ stateFileExt) = None"
    by (simp add: fs_present_def)
  have b3: "post_succeeded (fst (handlePost fs_present NewRecorder (Some ''new'') ''s''))"
    by (simp add: post_succeeded_def fs_present_def handlePost_def isLocked_def exists_state_def
        os_Stat_def os_WriteFile_def WriteHeader_def NewRecorder_def Let_def
        lockFileExt_def stateFileExt_def)
  have b4: "nodes fs_present (''s'' @ stateFileExt) = Some (File ''{}'')"
    by (simp add: fs_present_def stateFileExt_def)
  from C7_post_created_or_replaced[OF a1 a2 a3] a4
  have a: "Code (fst (handlePost fs_empty NewRecorder (Some ''new'') ''s'')) = StatusCreated
    \<and> nodes (snd (handlePost fs_empty NewRecorder (Some ''new'') ''s'')) (''s'' @ stateFileExt) =
       Some (File ''new'')"
    by simp
  from C7_post_created_or_replaced[OF b1 b2 b3] b4
  have b: "Code (fst (handlePost fs_present NewRecorder (Some ''new'') ''s'')) = StatusOK
    \<and> nodes (snd (handlePost fs_present NewRecorder (Some ''new'') ''s'')) (''s'' @ stateFileExt) =
       Some (File ''new'')"
    by simp
  show ?thesis using a1 a2 a3 a4 b1 b2 b3 b4 a b by blast
qed

subsection \<open>C8: what is posted is what is read\<close>

text \<open>
  Claim C8. For every name \<open>N\<close> and every byte sequence \<open>B\<close>, JSON or not, a successful
  POST of \<open>B\<close> to \<open>N\<close> followed by a GET of \<open>N\<close> (whose open and read do not fail for an
  outside reason) answers 200 with body exactly \<open>B\<close>. A successful POST was not refused,
  so \<open>N\<close> was not locked.
\<close>

theorem C8_post_then_get_roundtrip:
  assumes "post_succeeded (fst (handlePost s NewRecorder (Some B) N))"
    and "fault s SysOpen (N @ stateFileExt) = None"
    and "fault s SysRead (N @ stateFileExt) = None"
  shows "\<not> isLocked s N
       \<and> handleGet (snd (handlePost s NewRecorder (Some B) N)) NewRecorder N =
           (\<lparr>wroteHeader = True, Code = StatusOK, Body = B\<rparr>,
            snd (handlePost s NewRecorder (Some B) N))"
proof -
  from assms(1) have b: "Body (fst (handlePost s NewRecorder (Some B) N)) = []"
    by (simp add: post_succeeded_def)
  note h = handlePost_success[OF b]
  then have "snd (handlePost s NewRecorder (Some B) N) =
               s\<lparr>nodes := (nodes s)(N @ stateFileExt \<mapsto> File B)\<rparr>" by simp
  then show ?thesis using assms(2,3) h
    by (simp add: handleGet_def os_ReadFile_def Write_fresh)
qed

theorem C8_post_then_get_roundtrip_witness:
  "post_succeeded (fst (handlePost fs_present NewRecorder (Some [CHR 0x00, CHR 0xFF, CHR 0x7B]) ''s''))
   \<and> fault fs_present SysOpen (''s'' @ stateFileExt) = None
   \<and> fault fs_present SysRead (''s'' @ stateFileExt) = None
   \<and> \<not> isLocked fs_present ''s''
   \<and> handleGet (snd (handlePost fs_present NewRecorder (Some [CHR 0x00, CHR 0xFF, CHR 0x7B]) ''s''))
        NewRecorder ''s'' =
       (\<lparr>wroteHeader = True, Code = StatusOK, Body = [CHR 0x00, CHR 0xFF, CHR 0x7B]\<rparr>,
        snd (handlePost fs_present NewRecorder (Some [CHR 0x00, CHR 0xFF, CHR 0x7B]) ''s''))"
proof -
  have h1: "post_succeeded
              (fst (handlePost fs_present NewRecorder (Some [CHR 0x00, CHR 0xFF, CHR 0x7B]) ''s''))"
    by (simp add: post_succeeded_def fs_present_def handlePost_def isLocked_def exists_state_def
        os_Stat_def os_WriteFile_def WriteHeader_def NewRecorder_def Let_def
        lockFileExt_def stateFileExt_def)
  have h2: "fault fs_present SysOpen (''s'' @ stateFileExt) = None"
    by (simp add: fs_present_def)
  have h3: "fault fs_present SysRead (''s'' @ stateFileExt) = None"
    by (simp add: fs_present_def)
  show ?thesis using h1 h2 h3 C8_post_then_get_roundtrip[OF h1 h2 h3] by blast
qed

subsection \<open>C9: GET\<close>

text \<open>
  Claim C9. For every name \<open>N\<close>, a GET answers 200 with the whole stored content when
  \<open>N\<close>'s content artifact is present (and is opened and read without failure), 404 when
  it is absent, and 500 when reading it fails with any error other than non-existence.
  The directory is never changed.
\<close>

theorem C9_get:
  "(nodes s (N @ stateFileExt) = Some (File b) \<and> fault s SysOpen (N @ stateFileExt) = None
      \<and> fault s SysRead (N @ stateFileExt) = None \<longrightarrow>
      handleGet s NewRecorder N = (\<lparr>wroteHeader = True, Code = StatusOK, Body = b\<rparr>, s))
   \<and> (nodes s (N @ stateFileExt) = None \<and> fault s SysOpen (N @ stateFileExt) = None \<longrightarrow>
      Code (fst (handleGet s NewRecorder N)) = StatusNotFound
      \<and> snd (handleGet s NewRecorder N) = s)
   \<and> (os_ReadFile s (N @ stateFileExt) = Inl e \<and> e \<noteq> ENOENT \<longrightarrow>
      Code (fst (handleGet s NewRecorder N)) = StatusInternalServerError
      \<and> snd (handleGet s NewRecorder N) = s)"
  by (auto simp: handleGet_def os_ReadFile_def is_ErrNotExist_def http_Error_fresh Write_fresh)

theorem C9_get_witness:
  "(nodes fs_present (''s'' @ stateFileExt) = Some (File ''{}'')
      \<and> fault fs_present SysOpen (''s'' @ stateFileExt) = None
      \<and> fault fs_present SysRead (''s'' @ stateFileExt) = None)
   \<and> (nodes fs_empty (''s'' @ stateFileExt) = None
      \<and> fault fs_empty SysOpen (''s'' @ stateFileExt) = None)
   \<and> (os_ReadFile fs_unreadable (''s'' @ stateFileExt) = Inl EIO \<and> EIO \<noteq> ENOENT)
   \<and> handleGet fs_present NewRecorder ''s'' =
       (\<lparr>wroteHeader = True, Code = StatusOK, Body = ''{}''\<rparr>, fs_present)
   \<and> Code (fst (handleGet fs_empty NewRecorder ''s'')) = StatusNotFound
   \<and> Code (fst (handleGet fs_unreadable NewRecorder ''s'')) = StatusInternalServerError"
proof -
  have a: "nodes fs_present (''s'' @ stateFileExt) = Some (File ''{}'')
           \<and> fault fs_present SysOpen (''s'' @ stateFileExt) = None
           \<and> fault fs_present SysRead (''s'' @ stateFileExt) = None"
    by (simp add: fs_present_def stateFileExt_def)
  have b: "nodes fs_empty (''s'' @ stateFileExt) = None
           \<and> fault fs_empty SysOpen (''s'' @ stateFileExt) = None"
    by (simp add: fs_empty_def)
  have c: "os_ReadFile fs_unreadable (''s'' @ stateFileExt) = Inl EIO \<and> EIO \<noteq> ENOENT"
    by (simp add: fs_unreadable_def os_ReadFile_def stateFileExt_def)
  show ?thesis
    using a b c
      C9_get[where s = fs_present and N = "''s''" and b = "''{}''" and e = EIO]
      C9_get[where s = fs_empty and N = "''s''" and b = "''{}''" and e = EIO]
      C9_get[where s = fs_unreadable and N = "''s''" and b = "''{}''" and e = EIO]
    by blast
qed

subsection \<open>C10: the checks fail open\<close>

text \<open>
  Claim C10. For every name \<open>N\<close>, \<^verbatim>\<open>isLocked\<close> and \<^verbatim>\<open>exists\<close> return false whenever
  the stat they rest on fails, whatever the error. So when \<open>N\<close>'s lock marker is present
  but the stat on it fails, \<open>N\<close> counts as unlocked: neither POST nor DELETE answers 423;
  a POST whose write goes through replaces the content and succeeds, and a DELETE whose
  removal goes through removes the content and answers 200 with an empty body.
\<close>

theorem C10_checks_fail_open:
  "(os_Stat s (N @ lockFileExt) = Inl e \<longrightarrow> \<not> isLocked s N)
   \<and> (os_Stat s (N @ stateFileExt) = Inl e \<longrightarrow> \<not> exists_state s N)
   \<and> (nodes s (N @ lockFileExt) = Some (File m) \<and> fault s SysStat (N @ lockFileExt) = Some e \<longrightarrow>
        \<not> isLocked s N
        \<and> Code (fst (handlePost s NewRecorder body N)) \<noteq> StatusLocked
        \<and> Code (fst (handleDelete s NewRecorder N)) \<noteq> StatusLocked
        \<and> (fst (os_WriteFile s (N @ stateFileExt) B) = None \<longrightarrow>
             nodes (snd (handlePost s NewRecorder (Some B) N)) (N @ stateFileExt) = Some (File B)
             \<and> post_succeeded (fst (handlePost s NewRecorder (Some B) N)))
        \<and> (fst (os_Remove s (N @ stateFileExt)) = None \<longrightarrow>
             nodes (snd (handleDelete s NewRecorder N)) (N @ stateFileExt) = None
             \<and> fst (handleDelete s NewRecorder N) = NewRecorder
             \<and> Code (fst (handleDelete s NewRecorder N)) = StatusOK))"
proof -
  have a: "os_Stat s (N @ lockFileExt) = Inl e \<longrightarrow> \<not> isLocked s N"
    by (simp add: isLocked_def)
  have b: "os_Stat s (N @ stateFileExt) = Inl e \<longrightarrow> \<not> exists_state s N"
    by (simp add: exists_state_def)
  have c: "\<not> isLocked s N" if "fault s SysStat (N @ lockFileExt) = Some e"
    using that by (simp add: isLocked_def os_Stat_def)
  have d: "Code (fst (handlePost s NewRecorder body N)) \<noteq> StatusLocked" if "\<not> isLocked s N"
    using that
    by (cases body; cases "os_WriteFile s (N @ stateFileExt) (the body)")
       (auto simp: handlePost_def Let_def http_Error_def Write_def WriteHeader_def NewRecorder_def
             split: option.splits)
  have f: "Code (fst (handleDelete s NewRecorder N)) \<noteq> StatusLocked" if "\<not> isLocked s N"
    using that
    by (cases "os_Remove s (N @ stateFileExt)")
       (auto simp: handleDelete_def Let_def http_Error_fresh Code_NewRecorder split: option.splits)
  have g: "nodes (snd (handlePost s NewRecorder (Some B) N)) (N @ stateFileExt) = Some (File B)
           \<and> post_succeeded (fst (handlePost s NewRecorder (Some B) N))"
    if nl: "\<not> isLocked s N" and ok: "fst (os_WriteFile s (N @ stateFileExt) B) = None"
  proof -
    obtain s' where w: "os_WriteFile s (N @ stateFileExt) B = (None, s')"
      using ok by (cases "os_WriteFile s (N @ stateFileExt) B") simp
    from os_WriteFile_ok[OF w] w nl show ?thesis
      by (simp add: handlePost_def Let_def WriteHeader_def NewRecorder_def post_succeeded_def)
  qed
  have h: "nodes (snd (handleDelete s NewRecorder N)) (N @ stateFileExt) = None
           \<and> fst (handleDelete s NewRecorder N) = NewRecorder
           \<and> Code (fst (handleDelete s NewRecorder N)) = StatusOK"
    if nl: "\<not> isLocked s N" and ok: "fst (os_Remove s (N @ stateFileExt)) = None"
  proof -
    obtain s' where w: "os_Remove s (N @ stateFileExt) = (None, s')"
      using ok by (cases "os_Remove s (N @ stateFileExt)") simp
    then have "nodes s' (N @ stateFileExt) = None"
      by (auto simp: os_Remove_def sys_unlink_def sys_rmdir_def
               split: option.splits node.splits if_splits)
    with w nl show ?thesis by (simp add: handleDelete_def Let_def Code_NewRecorder)
  qed
  show ?thesis using a b c d f g h by blast
qed

theorem C10_checks_fail_open_witness:
  "os_Stat fs_stat_denied (''s'' @ lockFileExt) = Inl EACCES
   \<and> os_Stat fs_stat_denied (''s'' @ stateFileExt) = Inl EACCES
   \<and> (nodes fs_stat_denied (''s'' @ lockFileExt) = Some (File [])
        \<and> fault fs_stat_denied SysStat (''s'' @ lockFileExt) = Some EACCES)
   \<and> fst (os_WriteFile fs_stat_denied (''s'' @ stateFileExt) ''new'') = None
   \<and> fst (os_Remove fs_stat_denied (''s'' @ stateFileExt)) = None
   \<and> \<not> isLocked fs_stat_denied ''s''
   \<and> \<not> exists_state fs_stat_denied ''s''
   \<and> Code (fst (handlePost fs_stat_denied NewRecorder (Some ''new'') ''s'')) \<noteq> StatusLocked
   \<and> Code (fst (handleDelete fs_stat_denied NewRecorder ''s'')) \<noteq> StatusLocked
   \<and> nodes (snd (handlePost fs_stat_denied NewRecorder (Some ''new'') ''s'')) (''s'' @ stateFileExt) =
       Some (File ''new'')
   \<and> post_succeeded (fst (handlePost fs_stat_denied NewRecorder (Some ''new'') ''s''))
   \<and> nodes (snd (handleDelete fs_stat_denied NewRecorder ''s'')) (''s'' @ stateFileExt) = None
   \<and> Code (fst (handleDelete fs_stat_denied NewRecorder ''s'')) = StatusOK"
proof -
  have a: "os_Stat fs_stat_denied (''s'' @ lockFileExt) = Inl EACCES"
    by (simp add: fs_stat_denied_def os_Stat_def)
  have b: "os_Stat fs_stat_denied (''s'' @ stateFileExt) = Inl EACCES"
    by (simp add: fs_stat_denied_def os_Stat_def)
  have c: "nodes fs_stat_denied (''s'' @ lockFileExt) = Some (File [])
           \<and> fault fs_stat_denied SysStat (''s'' @ lockFileExt) = Some EACCES"
    by (simp add: fs_stat_denied_def lockFileExt_def)
  have d: "fst (os_WriteFile fs_stat_denied (''s'' @ stateFileExt) ''new'') = None"
    by (simp add: fs_stat_denied_def os_WriteFile_def stateFileExt_def)
  have f: "fst (os_Remove fs_stat_denied (''s'' @ stateFileExt)) = None"
    by (simp add: fs_stat_denied_def os_Remove_def sys_unlink_def stateFileExt_def)
  show ?thesis
    using a b c d f
      C10_checks_fail_open[where s = fs_stat_denied and N = "''s''" and e = EACCES
        and m = "[]" and body = "Some ''new''" and B = "''new''"]
    by blast
qed

end
